theory Spec2Isabelle
  imports Main
begin

section \<open>Card number formatting: the embedding of \<open>src/CardInput/index.js\<close>\<close>

text \<open>
  Strings are lists of characters (one \<^typ>\<open>char\<close> per code unit of the source string; the
  functions below only ever compare a code unit with a digit, a space or \<open>#\<close>). Cursor
  offsets are integers. The source's functions throw nothing on the inputs modelled here,
  except where the change handler reads a snapshot that is \<open>null\<close>; that throw is a value
  of \<open>js_error\<close>.
\<close>

subsection \<open>Values and coercion to a string\<close>

datatype js_value = Undefined | Str string

text \<open>The expression \<open>'' + value\<close>.\<close>

definition toStr :: "js_value \<Rightarrow> string" where
  "toStr v = (case v of Undefined \<Rightarrow> ''undefined'' | Str s \<Rightarrow> s)"

subsection \<open>\<open>getPatternFromNumber\<close>\<close>

text \<open>The object literal \<open>patterns\<close>: its keys are one-character strings.\<close>

definition patterns :: "char \<rightharpoonup> string" where
  "patterns =
     [CHR ''0'' \<mapsto> ''###################'',
      CHR ''2'' \<mapsto> ''#### #### #### ####'',
      CHR ''3'' \<mapsto> ''#### ###### #####'',
      CHR ''4'' \<mapsto> ''#### #### #### #### ###'',
      CHR ''5'' \<mapsto> ''#### #### #### ####'',
      CHR ''6'' \<mapsto> ''#### #### #### ####'']"

text \<open>
  \<open>('' + number)[0] || '0'\<close> is the first code unit, or \<open>'0'\<close> when the string is empty;
  \<open>patterns[firstDigit] || patterns['0']\<close> falls back to the entry of \<open>'0'\<close> when the key
  is absent.
\<close>

definition getPatternFromNumber :: "js_value \<Rightarrow> string" where
  "getPatternFromNumber number =
     (let firstDigit = (case toStr number of [] \<Rightarrow> CHR ''0'' | c # _ \<Rightarrow> c)
      in case patterns firstDigit of
           Some p \<Rightarrow> p
         | None \<Rightarrow> (case patterns (CHR ''0'') of Some p0 \<Rightarrow> p0 | None \<Rightarrow> []))"

subsection \<open>\<open>isNumber\<close>\<close>

text \<open>
  \<open>"0123456789".indexOf(value) !== -1\<close>, for the one-character strings the formatter
  passes in.
\<close>

definition isNumber :: "char \<Rightarrow> bool" where
  "isNumber c = (c \<in> set ''0123456789'')"

subsection \<open>\<open>formatNumber\<close>\<close>

text \<open>The argument object: \<open>value\<close> may be absent, and so may either selection offset.\<close>

record format_args =
  arg_value :: js_value
  arg_selectionStart :: "int option"
  arg_selectionEnd :: "int option"

text \<open>
  An object \<open>{value, selectionStart, selectionEnd}\<close>: the result of \<open>formatNumber\<close>, the
  component's \<open>inputState\<close>, and the part of the input element the change handler reads.
\<close>

record selection =
  sel_value :: string
  selectionStart :: int
  selectionEnd :: int

text \<open>What \<open>processNumber\<close> and \<open>processSpace\<close> return.\<close>

record instruction =
  outCharacter :: char
  addToOutput :: bool
  shiftInput :: bool

definition processNumber :: "char \<Rightarrow> instruction" where
  "processNumber inCharacter =
     \<lparr>outCharacter = inCharacter, addToOutput = isNumber inCharacter, shiftInput = True\<rparr>"

definition processSpace :: "char \<Rightarrow> instruction" where
  "processSpace inCharacter =
     \<lparr>outCharacter = CHR '' '', addToOutput = True, shiftInput = \<not> isNumber inCharacter\<rparr>"

text \<open>
  The array \<open>outputNumber\<close> is a list of slots, \<open>None\<close> being a hole. An assignment
  \<open>a[n] = v\<close> beyond the end extends the array, leaving holes; \<open>a.join('')\<close> reads a hole as
  the empty string.
\<close>

definition array_set :: "'a option list \<Rightarrow> nat \<Rightarrow> 'a \<Rightarrow> 'a option list" where
  "array_set a n v =
     (if n < length a then a[n := Some v]
      else a @ replicate (n - length a) None @ [Some v])"

definition join :: "char option list \<Rightarrow> string" where
  "join a = concat (map (\<lambda>e. case e of None \<Rightarrow> [] | Some c \<Rightarrow> [c]) a)"

text \<open>The variables of the loop; \<open>pos_i\<close> and \<open>pos_j\<close> are the source's \<open>i\<close> and \<open>j\<close>.\<close>

record walk =
  outputNumber :: "char option list"
  currentStart :: int
  currentEnd :: int
  pos_i :: nat
  pos_j :: nat

text \<open>
  One pass through the body of the \<open>while\<close> loop. It runs only under the loop's guard, so
  both index reads are in range.
\<close>

definition loopBody :: "string \<Rightarrow> string \<Rightarrow> walk \<Rightarrow> walk" where
  "loopBody inputNumber pattern w =
     (let inCharacter = inputNumber ! pos_i w;
          currentPattern = pattern ! pos_j w;
          r = (if currentPattern = CHR ''#'' then processNumber inCharacter
               else processSpace inCharacter);
          w1 = (if addToOutput r
                then w\<lparr>outputNumber := array_set (outputNumber w) (pos_j w) (outCharacter r),
                       pos_j := pos_j w + 1\<rparr>
                else w)
      in if shiftInput r then w1\<lparr>pos_i := pos_i w1 + 1\<rparr>
         else w1\<lparr>currentStart :=
                    (if int (pos_i w1) < currentStart w1 then currentStart w1 + 1
                     else currentStart w1),
                  currentEnd :=
                    (if int (pos_i w1) < currentEnd w1 then currentEnd w1 + 1
                     else currentEnd w1)\<rparr>)"

definition loopGuard :: "string \<Rightarrow> string \<Rightarrow> walk \<Rightarrow> bool" where
  "loopGuard inputNumber pattern w =
     (pos_i w < length inputNumber \<and> pos_j w < length pattern)"

function formatLoop :: "string \<Rightarrow> string \<Rightarrow> walk \<Rightarrow> walk" where
  "formatLoop inputNumber pattern w =
     (if loopGuard inputNumber pattern w
      then formatLoop inputNumber pattern (loopBody inputNumber pattern w)
      else w)"
  by pat_completeness auto
termination
  by (relation "measure (\<lambda>(inp, pat, w). (length inp - pos_i w) + (length pat - pos_j w))")
     (auto simp: loopGuard_def loopBody_def Let_def processNumber_def processSpace_def)

declare formatLoop.simps [simp del]

text \<open>The default values of the parameters \<open>selectionStart\<close> and \<open>selectionEnd\<close>.\<close>

definition selectionStartOf :: "format_args \<Rightarrow> int" where
  "selectionStartOf a =
     (case arg_selectionStart a of
        Some s \<Rightarrow> s
      | None \<Rightarrow> (case arg_value a of
                   Undefined \<Rightarrow> 0
                 | Str s \<Rightarrow> int (length (toStr (Str s)))))"

definition selectionEndOf :: "format_args \<Rightarrow> int" where
  "selectionEndOf a =
     (case arg_selectionEnd a of Some e \<Rightarrow> e | None \<Rightarrow> selectionStartOf a)"

definition initialWalk :: "format_args \<Rightarrow> walk" where
  "initialWalk a =
     \<lparr>outputNumber = [], currentStart = selectionStartOf a, currentEnd = selectionEndOf a,
      pos_i = 0, pos_j = 0\<rparr>"

definition formatNumber :: "format_args \<Rightarrow> selection" where
  "formatNumber a =
     (let inputNumber = toStr (arg_value a);
          pattern = getPatternFromNumber (Str inputNumber);
          w = formatLoop inputNumber pattern (initialWalk a)
      in \<lparr>sel_value = join (outputNumber w),
          selectionStart = currentStart w,
          selectionEnd = currentEnd w\<rparr>)"

text \<open>The call \<open>formatNumber({value: v})\<close>, with neither selection offset supplied.\<close>

definition valueOnly :: "string \<Rightarrow> format_args" where
  "valueOnly v = \<lparr>arg_value = Str v, arg_selectionStart = None, arg_selectionEnd = None\<rparr>"

subsection \<open>The change handler of the component\<close>

datatype js_error = TypeError

text \<open>
  The object stored in \<open>reversionData.current\<close> by the key-down handler; the reference
  holds \<open>null\<close> until the first key-down.
\<close>

record reversion =
  rev_selectionStart :: int
  rev_selectionEnd :: int
  rev_value :: string
  isReplacing :: bool
  isAddingSpace :: bool

text \<open>
  What one call of \<open>manageChange\<close> does to its surroundings: the argument it passes to
  \<open>setInputState\<close>, whether it called \<open>e.preventDefault()\<close>, and the value it handed to
  \<open>onChange\<close>, if it called it.
\<close>

record outcome =
  nextInputState :: selection
  defaultPrevented :: bool
  notified :: "string option"

text \<open>\<open>revertState(e, null)\<close> throws when it destructures its second argument.\<close>

definition revertState :: "reversion option \<Rightarrow> js_error + outcome" where
  "revertState r =
     (case r of
        None \<Rightarrow> Inl TypeError
      | Some d \<Rightarrow>
          Inr \<lparr>nextInputState =
                 \<lparr>sel_value = rev_value d, selectionStart = rev_selectionStart d,
                  selectionEnd = rev_selectionEnd d\<rparr>,
               defaultPrevented = True, notified = None\<rparr>)"

text \<open>The test \<open>/[^0-9 ]/.test(value)\<close>.\<close>

definition hasOtherCharacter :: "string \<Rightarrow> bool" where
  "hasOtherCharacter val = list_ex (\<lambda>c. c \<notin> set ''0123456789 '') val"

text \<open>\<open>cardPattern[selectionStart]\<close>: \<open>undefined\<close> outside the string.\<close>

definition charAt :: "string \<Rightarrow> int \<Rightarrow> char option" where
  "charAt s n = (if 0 \<le> n \<and> n < int (length s) then Some (s ! nat n) else None)"

text \<open>
  \<open>manageChange\<close>, given the snapshot, the current \<open>inputState\<close> and the input element
  after the edit. Reading \<open>originalInputData.value\<close> throws when the snapshot is \<open>null\<close>.
\<close>

definition manageChange ::
  "reversion option \<Rightarrow> selection \<Rightarrow> selection \<Rightarrow> js_error + outcome" where
  "manageChange reversionData inputState input =
     (let val = sel_value input;
          originalInputData = reversionData
      in if hasOtherCharacter val then revertState originalInputData
         else
           let cardPattern = getPatternFromNumber (Str val)
           in case originalInputData of
                None \<Rightarrow> Inl TypeError
              | Some d \<Rightarrow>
                  if length (rev_value d) = length cardPattern \<and>
                     length val \<ge> length cardPattern \<and> \<not> isReplacing d
                  then revertState originalInputData
                  else if isAddingSpace d \<and>
                          charAt cardPattern (rev_selectionStart d) \<noteq> Some (CHR '' '')
                  then revertState originalInputData
                  else
                    let formattedData =
                          formatNumber \<lparr>arg_value = Str val,
                                        arg_selectionStart = Some (selectionStart input),
                                        arg_selectionEnd = Some (selectionEnd input)\<rparr>
                    in Inr \<lparr>nextInputState = formattedData,
                            defaultPrevented = False,
                            notified =
                              (if sel_value inputState \<noteq> sel_value formattedData
                               then Some (sel_value formattedData) else None)\<rparr>)"

subsection \<open>A walk that keeps every character\<close>

text \<open>
  A pass of the body drops its input character when it moves on in the input and writes
  nothing. A walk keeps every character of the input when no pass of the loop drops one
  and the loop stops with the input used up, so that nothing is left behind the end of
  the pattern either.
\<close>

definition dropping :: "string \<Rightarrow> string \<Rightarrow> walk \<Rightarrow> bool" where
  "dropping inputNumber pattern w =
     (pos_i w < pos_i (loopBody inputNumber pattern w) \<and>
      pos_j (loopBody inputNumber pattern w) = pos_j w)"

function keepsEvery :: "string \<Rightarrow> string \<Rightarrow> walk \<Rightarrow> bool" where
  "keepsEvery inputNumber pattern w =
     (if loopGuard inputNumber pattern w
      then \<not> dropping inputNumber pattern w \<and>
           keepsEvery inputNumber pattern (loopBody inputNumber pattern w)
      else length inputNumber \<le> pos_i w)"
  by pat_completeness auto
termination
  by (relation "measure (\<lambda>(inp, pat, w). (length inp - pos_i w) + (length pat - pos_j w))")
     (auto simp: loopGuard_def loopBody_def Let_def processNumber_def processSpace_def)

declare keepsEvery.simps [simp del]

subsection \<open>Notions used in the proofs\<close>

text \<open>
  The array has no hole and \<open>j\<close> is its length: the loop keeps this, so every assignment
  \<open>outputNumber[j] = outCharacter\<close> appends.
\<close>

definition dense :: "walk \<Rightarrow> bool" where
  "dense w =
     (outputNumber w = map Some (join (outputNumber w)) \<and> pos_j w = length (outputNumber w))"

text \<open>The characters one pass of the body adds to the output, and whether it inserts a
  separator in front of a digit that it leaves in the input.\<close>

definition emitted :: "string \<Rightarrow> string \<Rightarrow> walk \<Rightarrow> string" where
  "emitted inp pat w =
     (if pat ! pos_j w = CHR ''#''
      then (if isNumber (inp ! pos_i w) then [inp ! pos_i w] else [])
      else '' '')"

definition inserting :: "string \<Rightarrow> string \<Rightarrow> walk \<Rightarrow> bool" where
  "inserting inp pat w = (pat ! pos_j w \<noteq> CHR ''#'' \<and> isNumber (inp ! pos_i w))"

text \<open>A string follows a pattern: a digit on every \<open>#\<close>, a space on every other position.\<close>

definition conforms :: "string \<Rightarrow> string \<Rightarrow> bool" where
  "conforms pat cs =
     (length cs \<le> length pat \<and>
      (\<forall>k < length cs. if pat ! k = CHR ''#'' then isNumber (cs ! k) else cs ! k = CHR '' ''))"

text \<open>The number of digit slots of a pattern.\<close>

definition slots :: "string \<Rightarrow> nat" where
  "slots pat = length (filter (\<lambda>c. c = CHR ''#'') pat)"

text \<open>No two neighbouring positions of a pattern are both separators.\<close>

fun isolated :: "string \<Rightarrow> bool" where
  "isolated (a # b # xs) = ((a = CHR ''#'' \<or> b = CHR ''#'') \<and> isolated (b # xs))"
| "isolated xs = True"

section \<open>The pattern selector\<close>

text \<open>
  Claim C1. For a string whose first character is \<open>2\<close>, \<open>5\<close> or \<open>6\<close> the selector returns
  \<open>#### #### #### ####\<close>; for \<open>4\<close> it returns \<open>#### #### #### #### ###\<close>; for \<open>3\<close> it
  returns \<open>#### ###### #####\<close>; for any other first character, for the empty string and for
  an absent argument it returns nineteen \<open>#\<close> with no separator. The function has no failing
  branch: it is a total function of its argument.
\<close>

theorem getPatternFromNumber_cases:
  "(s \<noteq> [] \<and> hd s \<in> {CHR ''2'', CHR ''5'', CHR ''6''}
      \<longrightarrow> getPatternFromNumber (Str s) = ''#### #### #### ####'') \<and>
   (s \<noteq> [] \<and> hd s = CHR ''4''
      \<longrightarrow> getPatternFromNumber (Str s) = ''#### #### #### #### ###'') \<and>
   (s \<noteq> [] \<and> hd s = CHR ''3''
      \<longrightarrow> getPatternFromNumber (Str s) = ''#### ###### #####'') \<and>
   (s = [] \<or> hd s \<notin> {CHR ''2'', CHR ''3'', CHR ''4'', CHR ''5'', CHR ''6''}
      \<longrightarrow> getPatternFromNumber (Str s) = replicate 19 (CHR ''#'')) \<and>
   getPatternFromNumber Undefined = replicate 19 (CHR ''#'')"
proof (cases s)
  case Nil
  have r: "replicate 19 (CHR ''#'') = ''###################''"
    by (simp add: numeral_eq_Suc)
  show ?thesis
    by (simp add: Nil r getPatternFromNumber_def toStr_def patterns_def)
next
  case (Cons c cs)
  have r: "replicate 19 (CHR ''#'') = ''###################''"
    by (simp add: numeral_eq_Suc)
  show ?thesis
    by (simp add: Cons r getPatternFromNumber_def toStr_def patterns_def)
qed

theorem getPatternFromNumber_cases_witness:
  "getPatternFromNumber (Str ''5105'') = ''#### #### #### ####'' \<and>
   getPatternFromNumber (Str ''4111'') = ''#### #### #### #### ###'' \<and>
   getPatternFromNumber (Str ''37'') = ''#### ###### #####'' \<and>
   getPatternFromNumber (Str ''9x'') = replicate 19 (CHR ''#'') \<and>
   getPatternFromNumber (Str []) = replicate 19 (CHR ''#'')"
  using getPatternFromNumber_cases [of "''5105''"] getPatternFromNumber_cases [of "''4111''"]
    getPatternFromNumber_cases [of "''37''"] getPatternFromNumber_cases [of "''9x''"]
    getPatternFromNumber_cases [of "[]"]
  by simp

section \<open>A worked example\<close>

text \<open>
  Claim C8. \<open>formatNumber({value: "4111111111111111"})\<close>, with no selection offsets
  supplied, returns the value \<open>4111 1111 1111 1111\<close> with both offsets equal to 19: they
  start at the length 16 of the input and move once for each of the three spaces.
\<close>

theorem formatNumber_visa_example:
  "formatNumber (valueOnly ''4111111111111111'') =
     \<lparr>sel_value = ''4111 1111 1111 1111'', selectionStart = 19, selectionEnd = 19\<rparr> \<and>
   selectionStartOf (valueOnly ''4111111111111111'') = 16 \<and>
   selectionEndOf (valueOnly ''4111111111111111'') = 16"
  by code_simp

section \<open>The loop\<close>

text \<open>An invariant of the body holds when the loop stops, and then the guard is false.\<close>

lemma formatLoop_rule:
  assumes "P w"
    and "\<And>u. P u \<Longrightarrow> loopGuard inp pat u \<Longrightarrow> P (loopBody inp pat u)"
  shows "P (formatLoop inp pat w) \<and> \<not> loopGuard inp pat (formatLoop inp pat w)"
  using assms
proof (induction inp pat w rule: formatLoop.induct)
  case (1 inp pat w)
  show ?case
  proof (cases "loopGuard inp pat w")
    case True
    then have "P (loopBody inp pat w)" using "1.prems" by blast
    with "1.IH" [OF True] "1.prems"(2) True show ?thesis
      by (subst (1 2) formatLoop.simps) simp
  next
    case False
    with "1.prems"(1) show ?thesis by (subst (1 2) formatLoop.simps) simp
  qed
qed

text \<open>One pass of the body, on a dense array.\<close>

lemma join_map_Some: "join (map Some cs) = cs"
  by (induction cs) (simp_all add: join_def)

lemma join_snoc: "join (a @ [Some c]) = join a @ [c]"
  by (simp add: join_def)

lemma dense_length: "dense w \<Longrightarrow> length (join (outputNumber w)) = pos_j w"
  by (metis dense_def length_map)

lemma join_Nil: "join [] = []"
  by (simp add: join_def)

lemma loopBody_dense:
  assumes "dense w"
  shows "dense (loopBody inp pat w)"
    and "join (outputNumber (loopBody inp pat w)) = join (outputNumber w) @ emitted inp pat w"
  using assms
  by (auto simp: dense_def loopBody_def Let_def processNumber_def processSpace_def array_set_def
      emitted_def join_snoc)

lemma loopBody_pos:
  "pos_i (loopBody inp pat w) = (if inserting inp pat w then pos_i w else Suc (pos_i w))"
  "pos_j (loopBody inp pat w) = pos_j w + length (emitted inp pat w)"
  by (auto simp: loopBody_def Let_def processNumber_def processSpace_def inserting_def emitted_def)

lemma loopBody_cursor:
  "currentStart (loopBody inp pat w) =
     (if inserting inp pat w \<and> int (pos_i w) < currentStart w then currentStart w + 1 else currentStart w)"
  "currentEnd (loopBody inp pat w) =
     (if inserting inp pat w \<and> int (pos_i w) < currentEnd w then currentEnd w + 1 else currentEnd w)"
  by (auto simp: loopBody_def Let_def processNumber_def processSpace_def inserting_def)

lemma initialWalk_dense: "dense (initialWalk a)"
  by (simp add: dense_def initialWalk_def join_def)

lemma initialWalk_simps:
  "outputNumber (initialWalk a) = []" "pos_i (initialWalk a) = 0" "pos_j (initialWalk a) = 0"
  "currentStart (initialWalk a) = selectionStartOf a" "currentEnd (initialWalk a) = selectionEndOf a"
  by (simp_all add: initialWalk_def)

lemma formatNumber_simps:
  "sel_value (formatNumber a) =
     join (outputNumber (formatLoop (toStr (arg_value a)) (getPatternFromNumber (Str (toStr (arg_value a)))) (initialWalk a)))"
  "selectionStart (formatNumber a) =
     currentStart (formatLoop (toStr (arg_value a)) (getPatternFromNumber (Str (toStr (arg_value a)))) (initialWalk a))"
  "selectionEnd (formatNumber a) =
     currentEnd (formatLoop (toStr (arg_value a)) (getPatternFromNumber (Str (toStr (arg_value a)))) (initialWalk a))"
  by (simp_all add: formatNumber_def Let_def)

section \<open>Cursor offsets\<close>

text \<open>
  Claim C6, as amended. In a pass of the body whose pattern position is a separator while
  the input character at \<open>i\<close> is a digit, a space is appended, \<open>j\<close> advances and \<open>i\<close> does not,
  and each cursor offset is incremented by one exactly when \<open>i\<close> is strictly less than the
  current value of that offset; an offset equal to \<open>i\<close> stays. Every other pass advances \<open>i\<close>
  and leaves both offsets as they are.
\<close>

theorem loopBody_cursor_shift:
  assumes "loopGuard inp pat w"
  shows "(pat ! pos_j w \<noteq> CHR ''#'' \<and> isNumber (inp ! pos_i w) \<longrightarrow>
       pos_i (loopBody inp pat w) = pos_i w \<and>
       pos_j (loopBody inp pat w) = pos_j w + 1 \<and>
       (pos_j w = length (outputNumber w) \<longrightarrow>
          join (outputNumber (loopBody inp pat w)) = join (outputNumber w) @ '' '') \<and>
       currentStart (loopBody inp pat w) =
         (if int (pos_i w) < currentStart w then currentStart w + 1 else currentStart w) \<and>
       currentEnd (loopBody inp pat w) =
         (if int (pos_i w) < currentEnd w then currentEnd w + 1 else currentEnd w)) \<and>
     (\<not> (pat ! pos_j w \<noteq> CHR ''#'' \<and> isNumber (inp ! pos_i w)) \<longrightarrow>
       pos_i (loopBody inp pat w) = pos_i w + 1 \<and>
       currentStart (loopBody inp pat w) = currentStart w \<and>
       currentEnd (loopBody inp pat w) = currentEnd w)"
  by (auto simp: loopBody_def Let_def processNumber_def processSpace_def array_set_def join_snoc)

theorem loopBody_cursor_shift_witness:
  "loopGuard ''41111'' ''#### #### #### #### ###''
     \<lparr>outputNumber = map Some ''4111'', currentStart = 5, currentEnd = 5, pos_i = 4, pos_j = 4\<rparr> \<and>
   loopBody ''41111'' ''#### #### #### #### ###''
     \<lparr>outputNumber = map Some ''4111'', currentStart = 5, currentEnd = 5, pos_i = 4, pos_j = 4\<rparr>
    = \<lparr>outputNumber = map Some ''4111 '', currentStart = 6, currentEnd = 6, pos_i = 4, pos_j = 5\<rparr>"
proof -
  have g: "loopGuard ''41111'' ''#### #### #### #### ###''
     \<lparr>outputNumber = map Some ''4111'', currentStart = 5, currentEnd = 5, pos_i = 4, pos_j = 4\<rparr>"
    by (simp add: loopGuard_def)
  have b: "loopBody ''41111'' ''#### #### #### #### ###''
     \<lparr>outputNumber = map Some ''4111'', currentStart = 5, currentEnd = 5, pos_i = 4, pos_j = 4\<rparr>
    = \<lparr>outputNumber = map Some ''4111 '', currentStart = 6, currentEnd = 6, pos_i = 4, pos_j = 5\<rparr>"
    by code_simp
  from loopBody_cursor_shift [OF g] g b show ?thesis by simp
qed

text \<open>
  Claim C6 as stated fails where the insertion point is at the offset. Formatting \<open>41111\<close>
  with both offsets at 4, the loop reaches \<open>i = 4\<close> after four passes; the fifth pass inserts
  the separator in front of the digit at index 4, which is at the offsets, and moves neither
  of them.
\<close>

theorem loopBody_no_shift_at_cursor:
  "loopBody ''41111'' (getPatternFromNumber (Str ''41111''))
     (loopBody ''41111'' (getPatternFromNumber (Str ''41111''))
       (loopBody ''41111'' (getPatternFromNumber (Str ''41111''))
         (loopBody ''41111'' (getPatternFromNumber (Str ''41111''))
           (initialWalk \<lparr>arg_value = Str ''41111'', arg_selectionStart = Some 4, arg_selectionEnd = Some 4\<rparr>))))
     = \<lparr>outputNumber = map Some ''4111'', currentStart = 4, currentEnd = 4, pos_i = 4, pos_j = 4\<rparr> \<and>
   loopGuard ''41111'' (getPatternFromNumber (Str ''41111''))
     \<lparr>outputNumber = map Some ''4111'', currentStart = 4, currentEnd = 4, pos_i = 4, pos_j = 4\<rparr> \<and>
   getPatternFromNumber (Str ''41111'') ! 4 \<noteq> CHR ''#'' \<and>
   isNumber (''41111'' ! 4) \<and>
   loopBody ''41111'' (getPatternFromNumber (Str ''41111''))
     \<lparr>outputNumber = map Some ''4111'', currentStart = 4, currentEnd = 4, pos_i = 4, pos_j = 4\<rparr>
     = \<lparr>outputNumber = map Some ''4111 '', currentStart = 4, currentEnd = 4, pos_i = 4, pos_j = 5\<rparr> \<and>
   formatNumber \<lparr>arg_value = Str ''41111'', arg_selectionStart = Some 4, arg_selectionEnd = Some 4\<rparr>
     = \<lparr>sel_value = ''4111 1'', selectionStart = 4, selectionEnd = 4\<rparr>"
  by code_simp

lemma formatLoop_ordered:
  assumes "currentStart w \<le> currentEnd w"
  shows "currentStart (formatLoop inp pat w) \<le> currentEnd (formatLoop inp pat w)"
proof -
  have "currentStart (loopBody inp pat u) \<le> currentEnd (loopBody inp pat u)"
    if "currentStart u \<le> currentEnd u" for u
    using that by (simp add: loopBody_cursor)
  with assms formatLoop_rule [where P = "\<lambda>u. currentStart u \<le> currentEnd u"]
  show ?thesis by blast
qed

text \<open>
  Claim C7. If the selection start of a request, supplied or defaulted, is at most its
  selection end, then the selection start of the result is at most its selection end.
\<close>

theorem formatNumber_cursor_monotone:
  "selectionStartOf a \<le> selectionEndOf a \<Longrightarrow>
     selectionStart (formatNumber a) \<le> selectionEnd (formatNumber a)"
  by (simp add: formatNumber_simps formatLoop_ordered initialWalk_simps)

theorem formatNumber_cursor_monotone_witness:
  "selectionStartOf \<lparr>arg_value = Str ''41111'', arg_selectionStart = Some 2, arg_selectionEnd = Some 5\<rparr>
     \<le> selectionEndOf \<lparr>arg_value = Str ''41111'', arg_selectionStart = Some 2, arg_selectionEnd = Some 5\<rparr> \<and>
   selectionStart (formatNumber \<lparr>arg_value = Str ''41111'', arg_selectionStart = Some 2, arg_selectionEnd = Some 5\<rparr>)
     \<le> selectionEnd (formatNumber \<lparr>arg_value = Str ''41111'', arg_selectionStart = Some 2, arg_selectionEnd = Some 5\<rparr>)"
proof -
  have h: "selectionStartOf \<lparr>arg_value = Str ''41111'', arg_selectionStart = Some 2, arg_selectionEnd = Some 5\<rparr>
     \<le> selectionEndOf \<lparr>arg_value = Str ''41111'', arg_selectionStart = Some 2, arg_selectionEnd = Some 5\<rparr>"
    by (simp add: selectionStartOf_def selectionEndOf_def)
  from formatNumber_cursor_monotone [OF h] h show ?thesis by simp
qed

section \<open>The shape of the output\<close>

lemma conforms_Nil: "conforms pat []"
  by (simp add: conforms_def)

lemma conforms_snoc:
  assumes "conforms pat cs" "length cs < length pat"
    and "if pat ! length cs = CHR ''#'' then isNumber x else x = CHR '' ''"
  shows "conforms pat (cs @ [x])"
  using assms by (auto simp: conforms_def nth_append less_Suc_eq)

lemma formatLoop_conforms:
  assumes "dense w" "conforms pat (join (outputNumber w))"
  shows "conforms pat (join (outputNumber (formatLoop inp pat w)))"
proof -
  let ?P = "\<lambda>u. dense u \<and> conforms pat (join (outputNumber u))"
  have step: "?P (loopBody inp pat u)" if "?P u" "loopGuard inp pat u" for u
  proof -
    from that have d: "dense u" and c: "conforms pat (join (outputNumber u))"
      and j: "pos_j u < length pat" by (simp_all add: loopGuard_def)
    have len: "length (join (outputNumber u)) = pos_j u" using d by (rule dense_length)
    have "conforms pat (join (outputNumber u) @ emitted inp pat u)"
    proof (cases "emitted inp pat u")
      case Nil
      with c show ?thesis by simp
    next
      case (Cons x xs)
      then have "emitted inp pat u = [x]"
        and "if pat ! pos_j u = CHR ''#'' then isNumber x else x = CHR '' ''"
        by (auto simp: emitted_def split: if_splits)
      with c j len show ?thesis by (simp add: conforms_snoc)
    qed
    with d show ?thesis by (simp add: loopBody_dense)
  qed
  from formatLoop_rule [where P = ?P, OF _ step] assms show ?thesis by blast
qed

lemma formatNumber_conforms:
  "conforms (getPatternFromNumber (Str (toStr (arg_value a)))) (sel_value (formatNumber a))"
  by (simp add: formatNumber_simps formatLoop_conforms initialWalk_dense initialWalk_simps
      join_Nil conforms_Nil)

lemma getPatternFromNumber_range:
  "getPatternFromNumber v \<in>
     {''###################'', ''#### #### #### ####'', ''#### ###### #####'',
      ''#### #### #### #### ###''}"
  by (cases "toStr v") (simp_all add: getPatternFromNumber_def patterns_def)

lemma pattern_chars:
  "c \<in> set (getPatternFromNumber v) \<Longrightarrow> c = CHR ''#'' \<or> c = CHR '' ''"
  using getPatternFromNumber_range [of v] by auto

lemma isNumber_space: "\<not> isNumber (CHR '' '')"
  by (simp add: isNumber_def)

lemma isolated_nth:
  "isolated xs \<Longrightarrow> Suc k < length xs \<Longrightarrow> xs ! k = CHR ''#'' \<or> xs ! Suc k = CHR ''#''"
proof (induction xs arbitrary: k rule: isolated.induct)
  case (1 a b xs)
  then show ?case by (cases k) auto
qed simp_all

lemma pattern_isolated: "isolated (getPatternFromNumber v)"
  using getPatternFromNumber_range [of v] by auto

lemma pattern_first:
  "getPatternFromNumber v \<noteq> [] \<and> getPatternFromNumber v ! 0 = CHR ''#''"
  using getPatternFromNumber_range [of v] by auto

lemma pattern_slots_pos: "0 < slots (getPatternFromNumber v)"
  using getPatternFromNumber_range [of v] by (auto simp: slots_def)

lemma conforms_chars:
  assumes "conforms pat cs" "x \<in> set cs"
  shows "isNumber x \<or> x = CHR '' ''"
proof -
  from assms(2) obtain k where "k < length cs" "cs ! k = x" by (auto simp: in_set_conv_nth)
  with assms(1) show ?thesis by (auto simp: conforms_def split: if_splits)
qed

lemma conforms_space:
  assumes "conforms pat cs" "k < length cs" "cs ! k = CHR '' ''"
  shows "pat ! k \<noteq> CHR ''#''"
proof
  assume "pat ! k = CHR ''#''"
  with assms(1,2) have "isNumber (cs ! k)" by (simp add: conforms_def)
  with assms(3) show False by (simp add: isNumber_space)
qed

lemma conforms_single_spaces:
  assumes "conforms pat cs" "isolated pat" "Suc k < length cs"
  shows "\<not> (cs ! k = CHR '' '' \<and> cs ! Suc k = CHR '' '')"
proof
  assume sp: "cs ! k = CHR '' '' \<and> cs ! Suc k = CHR '' ''"
  from assms(1,3) have len: "Suc k < length pat" by (simp add: conforms_def)
  from assms(1,3) sp have "pat ! k \<noteq> CHR ''#''" "pat ! Suc k \<noteq> CHR ''#''"
    by (simp_all add: conforms_space)
  with isolated_nth [OF assms(2) len] show False by simp
qed

lemma conforms_positions:
  assumes "conforms (getPatternFromNumber v) cs" "k < length cs"
  shows "(cs ! k = CHR '' '') = (getPatternFromNumber v ! k = CHR '' '')"
proof -
  from assms have k: "k < length (getPatternFromNumber v)" by (simp add: conforms_def)
  then have "getPatternFromNumber v ! k \<in> set (getPatternFromNumber v)" by simp
  then have "getPatternFromNumber v ! k = CHR ''#'' \<or> getPatternFromNumber v ! k = CHR '' ''"
    by (rule pattern_chars)
  moreover from assms
  have "if getPatternFromNumber v ! k = CHR ''#'' then isNumber (cs ! k) else cs ! k = CHR '' ''"
    by (simp add: conforms_def)
  ultimately show ?thesis by (auto simp: isNumber_space)
qed

text \<open>
  Claim C10. For every input string and every index \<open>k\<close> below the length of the formatted
  value, the character at \<open>k\<close> is a space if and only if the pattern selected from the input
  has a space at \<open>k\<close>, and it is a digit otherwise. The pattern is the one of the input's
  first character, also where the output's own first digit would select another one.
\<close>

theorem formatNumber_follows_input_pattern:
  assumes "k < length (sel_value (formatNumber \<lparr>arg_value = Str v, arg_selectionStart = ss, arg_selectionEnd = se\<rparr>))"
  shows "k < length (getPatternFromNumber (Str v)) \<and>
     ((sel_value (formatNumber \<lparr>arg_value = Str v, arg_selectionStart = ss, arg_selectionEnd = se\<rparr>) ! k = CHR '' '')
        = (getPatternFromNumber (Str v) ! k = CHR '' '')) \<and>
     (sel_value (formatNumber \<lparr>arg_value = Str v, arg_selectionStart = ss, arg_selectionEnd = se\<rparr>) ! k \<noteq> CHR '' ''
        \<longrightarrow> isNumber (sel_value (formatNumber \<lparr>arg_value = Str v, arg_selectionStart = ss, arg_selectionEnd = se\<rparr>) ! k))"
proof -
  let ?a = "\<lparr>arg_value = Str v, arg_selectionStart = ss, arg_selectionEnd = se\<rparr>"
  let ?out = "sel_value (formatNumber ?a)"
  let ?pat = "getPatternFromNumber (Str v)"
  have c: "conforms ?pat ?out"
    using formatNumber_conforms [of ?a] by (simp add: toStr_def)
  with assms have k: "k < length ?pat" by (simp add: conforms_def)
  then have "?pat ! k \<in> set ?pat" by simp
  then have p: "?pat ! k = CHR ''#'' \<or> ?pat ! k = CHR '' ''" by (rule pattern_chars)
  from c assms have "if ?pat ! k = CHR ''#'' then isNumber (?out ! k) else ?out ! k = CHR '' ''"
    by (simp add: conforms_def)
  with p k show ?thesis by (auto simp: isNumber_space)
qed

theorem formatNumber_follows_input_pattern_witness:
  "sel_value (formatNumber (valueOnly '' 41111'')) = ''41111'' \<and>
   getPatternFromNumber (Str '' 41111'') ! 4 \<noteq> CHR '' '' \<and>
   getPatternFromNumber (Str ''41111'') ! 4 = CHR '' '' \<and>
   isNumber (sel_value (formatNumber (valueOnly '' 41111'')) ! 4)"
proof -
  have v: "sel_value (formatNumber (valueOnly '' 41111'')) = ''41111''" by code_simp
  have k: "4 < length (sel_value (formatNumber \<lparr>arg_value = Str '' 41111'', arg_selectionStart = None, arg_selectionEnd = None\<rparr>))"
    using v by (simp add: valueOnly_def)
  have p: "getPatternFromNumber (Str ''41111'') ! 4 = CHR '' ''" by code_simp
  from formatNumber_follows_input_pattern [OF k] v p show ?thesis
    by (simp add: valueOnly_def)
qed

section \<open>Digits\<close>

lemma filter_emitted:
  "filter isNumber (emitted inp pat u) =
     (if pat ! pos_j u = CHR ''#'' \<and> isNumber (inp ! pos_i u) then [inp ! pos_i u] else [])"
  by (simp add: emitted_def isNumber_space)

lemma formatLoop_digits:
  assumes "dense w" "pos_i w \<le> length inp" "pos_j w \<le> length pat"
    and "filter isNumber (join (outputNumber w)) = filter isNumber (take (pos_i w) inp)"
    and "length (filter isNumber (join (outputNumber w))) = slots (take (pos_j w) pat)"
  shows "filter isNumber (join (outputNumber (formatLoop inp pat w))) =
           take (slots pat) (filter isNumber inp)"
proof -
  let ?P = "\<lambda>u. dense u \<and> pos_i u \<le> length inp \<and> pos_j u \<le> length pat \<and>
     filter isNumber (join (outputNumber u)) = filter isNumber (take (pos_i u) inp) \<and>
     length (filter isNumber (join (outputNumber u))) = slots (take (pos_j u) pat)"
  have step: "?P (loopBody inp pat u)" if "?P u" "loopGuard inp pat u" for u
  proof -
    from that have d: "dense u" and i: "pos_i u < length inp" and j: "pos_j u < length pat"
      and f: "filter isNumber (join (outputNumber u)) = filter isNumber (take (pos_i u) inp)"
      and s: "length (filter isNumber (join (outputNumber u))) = slots (take (pos_j u) pat)"
      unfolding loopGuard_def by blast+
    show ?thesis
      using d i j f s
      by (auto simp: loopBody_dense loopBody_pos filter_emitted emitted_def inserting_def
          take_Suc_conv_app_nth slots_def isNumber_space)
  qed
  from formatLoop_rule [where P = ?P, OF _ step] assms
  have fin: "?P (formatLoop inp pat w)" and ex: "\<not> loopGuard inp pat (formatLoop inp pat w)"
    by blast+
  let ?u = "formatLoop inp pat w"
  let ?ds = "filter isNumber (join (outputNumber ?u))"
  from fin have f1: "?ds = filter isNumber (take (pos_i ?u) inp)"
    and f2: "length ?ds = slots (take (pos_j ?u) pat)"
    and jb: "pos_j ?u \<le> length pat"
    by blast+
  have "slots pat = slots (take (pos_j ?u) pat) + slots (drop (pos_j ?u) pat)"
    unfolding slots_def by (metis append_take_drop_id filter_append length_append)
  with f2 have le: "length ?ds \<le> slots pat" by linarith
  have "filter isNumber inp =
      filter isNumber (take (pos_i ?u) inp) @ filter isNumber (drop (pos_i ?u) inp)"
    by (metis append_take_drop_id filter_append)
  with f1 have split: "filter isNumber inp = ?ds @ filter isNumber (drop (pos_i ?u) inp)"
    by presburger
  from ex have "pos_i ?u \<ge> length inp \<or> pos_j ?u \<ge> length pat"
    by (auto simp: loopGuard_def)
  then show ?thesis
  proof
    assume "pos_i ?u \<ge> length inp"
    with split have "filter isNumber inp = ?ds" by simp
    with le show ?thesis by simp
  next
    assume "pos_j ?u \<ge> length pat"
    with jb f2 have "length ?ds = slots pat" by simp
    with split show ?thesis by simp
  qed
qed

text \<open>
  Claim C2. The digits of the formatted value, in order, are the digits of the input
  string, cut off at the number of \<open>#\<close> slots of the pattern selected for the input.
\<close>

theorem formatNumber_preserves_digits:
  "filter isNumber (sel_value (formatNumber \<lparr>arg_value = Str v, arg_selectionStart = ss, arg_selectionEnd = se\<rparr>)) =
     take (length (filter (\<lambda>c. c = CHR ''#'') (getPatternFromNumber (Str v)))) (filter isNumber v)"
  using formatLoop_digits [of "initialWalk \<lparr>arg_value = Str v, arg_selectionStart = ss, arg_selectionEnd = se\<rparr>" v "getPatternFromNumber (Str v)"]
  by (simp add: formatNumber_simps initialWalk_dense initialWalk_simps join_Nil toStr_def slots_def)

section \<open>Formatting a formatted value\<close>

lemma pattern_hd:
  "getPatternFromNumber (Str (c # xs)) = getPatternFromNumber (Str (c # ys))"
  by (simp add: getPatternFromNumber_def toStr_def)

lemma formatLoop_fixed:
  assumes "conforms pat cs"
    and "dense w" "pos_i w = pos_j w" "pos_i w \<le> length cs"
    and "join (outputNumber w) = take (pos_i w) cs"
  shows "join (outputNumber (formatLoop cs pat w)) = cs"
proof -
  let ?P = "\<lambda>u. dense u \<and> pos_i u = pos_j u \<and> pos_i u \<le> length cs \<and>
     join (outputNumber u) = take (pos_i u) cs"
  have step: "?P (loopBody cs pat u)" if "?P u" "loopGuard cs pat u" for u
  proof -
    from that have d: "dense u" and ij: "pos_i u = pos_j u" and i: "pos_i u < length cs"
      and t: "join (outputNumber u) = take (pos_i u) cs"
      unfolding loopGuard_def by blast+
    from assms(1) i ij
    have k: "if pat ! pos_j u = CHR ''#'' then isNumber (cs ! pos_i u) else cs ! pos_i u = CHR '' ''"
      by (simp add: conforms_def)
    then have e: "emitted cs pat u = [cs ! pos_i u]" and n: "\<not> inserting cs pat u"
      by (auto simp: emitted_def inserting_def isNumber_space split: if_splits)
    show ?thesis
      using d ij i t e n by (simp add: loopBody_dense loopBody_pos take_Suc_conv_app_nth)
  qed
  from formatLoop_rule [where P = ?P, OF _ step] assms
  have fin: "?P (formatLoop cs pat w)" and ex: "\<not> loopGuard cs pat (formatLoop cs pat w)"
    by blast+
  let ?u = "formatLoop cs pat w"
  from fin have ij: "pos_i ?u = pos_j ?u" and t: "join (outputNumber ?u) = take (pos_i ?u) cs"
    by blast+
  from assms(1) have "length cs \<le> length pat" by (simp add: conforms_def)
  with ex ij have "length cs \<le> pos_i ?u" by (auto simp: loopGuard_def)
  with t show ?thesis by simp
qed

lemma formatNumber_first:
  assumes "isNumber c"
  shows "\<exists>ys. sel_value (formatNumber \<lparr>arg_value = Str (c # cs), arg_selectionStart = ss, arg_selectionEnd = se\<rparr>) = c # ys"
proof -
  let ?a = "\<lparr>arg_value = Str (c # cs), arg_selectionStart = ss, arg_selectionEnd = se\<rparr>"
  let ?out = "sel_value (formatNumber ?a)"
  let ?pat = "getPatternFromNumber (Str (c # cs))"
  have "filter isNumber ?out = take (slots ?pat) (filter isNumber (c # cs))"
    using formatLoop_digits [of "initialWalk ?a" "c # cs" ?pat]
    by (simp add: formatNumber_simps initialWalk_dense initialWalk_simps join_Nil toStr_def
        slots_def)
  moreover obtain n where "slots ?pat = Suc n"
    using pattern_slots_pos [of "Str (c # cs)"] by (cases "slots ?pat") auto
  ultimately have f: "filter isNumber ?out = c # take n (filter isNumber cs)"
    using assms by simp
  then obtain x ys where o: "?out = x # ys" by (cases ?out) auto
  have "conforms ?pat ?out" using formatNumber_conforms [of ?a] by (simp add: toStr_def)
  with o pattern_first [of "Str (c # cs)"] have "isNumber x"
    by (auto simp: conforms_def)
  with f o have "x = c" by simp
  with o show ?thesis by blast
qed

lemma formatNumber_same_pattern:
  assumes "v = [] \<or> isNumber (hd v)"
  shows "getPatternFromNumber (Str (sel_value (formatNumber \<lparr>arg_value = Str v, arg_selectionStart = ss, arg_selectionEnd = se\<rparr>)))
     = getPatternFromNumber (Str v)"
proof (cases v)
  case Nil
  have "\<not> loopGuard [] pat w" for pat w by (simp add: loopGuard_def)
  then have "formatLoop [] pat w = w" for pat w by (subst formatLoop.simps) simp
  then show ?thesis
    by (simp add: Nil formatNumber_simps toStr_def initialWalk_simps join_Nil)
next
  case (Cons c cs)
  with assms have "isNumber c" by simp
  from formatNumber_first [OF this, of cs ss se] Cons
  obtain ys where "sel_value (formatNumber \<lparr>arg_value = Str v, arg_selectionStart = ss, arg_selectionEnd = se\<rparr>) = c # ys"
    by blast
  with Cons pattern_hd [of c ys cs] show ?thesis by presburger
qed

lemma formatNumber_fixed:
  assumes "conforms (getPatternFromNumber (Str cs)) cs"
  shows "sel_value (formatNumber \<lparr>arg_value = Str cs, arg_selectionStart = ss, arg_selectionEnd = se\<rparr>) = cs"
  using formatLoop_fixed [OF assms, of "initialWalk \<lparr>arg_value = Str cs, arg_selectionStart = ss, arg_selectionEnd = se\<rparr>"]
  by (simp add: formatNumber_simps initialWalk_dense initialWalk_simps join_Nil toStr_def)

text \<open>
  Claim C3, as amended. For every string of digits and spaces that is empty or begins with
  a digit, formatting the formatted value again gives the same value. Nothing is said of
  the selection offsets of the two results.
\<close>

theorem formatNumber_idempotent_on_value:
  assumes "\<not> hasOtherCharacter v" and "v = [] \<or> isNumber (hd v)"
  shows "sel_value (formatNumber (valueOnly (sel_value (formatNumber (valueOnly v))))) =
     sel_value (formatNumber (valueOnly v))"
proof -
  let ?out = "sel_value (formatNumber (valueOnly v))"
  have "conforms (getPatternFromNumber (Str v)) ?out"
    using formatNumber_conforms [of "valueOnly v"] by (simp add: valueOnly_def toStr_def)
  moreover have "getPatternFromNumber (Str ?out) = getPatternFromNumber (Str v)"
    using formatNumber_same_pattern [OF assms(2)] by (simp add: valueOnly_def)
  ultimately have "conforms (getPatternFromNumber (Str ?out)) ?out" by simp
  then show ?thesis unfolding valueOnly_def by (rule formatNumber_fixed)
qed

theorem formatNumber_idempotent_on_value_witness:
  "\<not> hasOtherCharacter ''41111'' \<and> isNumber (hd ''41111'') \<and>
   sel_value (formatNumber (valueOnly ''41111'')) = ''4111 1'' \<and>
   sel_value (formatNumber (valueOnly ''4111 1'')) = ''4111 1''"
proof -
  have h: "\<not> hasOtherCharacter ''41111''" by (simp add: hasOtherCharacter_def)
  have d: "''41111'' = [] \<or> isNumber (hd ''41111'')" by (simp add: isNumber_def)
  have v: "sel_value (formatNumber (valueOnly ''41111'')) = ''4111 1''" by code_simp
  from formatNumber_idempotent_on_value [OF h d] h d v show ?thesis by simp
qed

text \<open>
  Claim C3 as stated fails in two ways. A string that begins with a space selects the
  pattern without separators: a space followed by \<open>41111\<close> formats to \<open>41111\<close>, which
  selects the pattern of \<open>4\<close> and formats to \<open>4111 1\<close>. And where a character is dropped
  the two results differ in their selection offsets though not in their values: \<open>4 1\<close>
  formats to \<open>41\<close> with both offsets at 3, and \<open>41\<close> to itself with both offsets at 2.
\<close>

theorem formatNumber_not_idempotent:
  "\<not> hasOtherCharacter '' 41111'' \<and>
   sel_value (formatNumber (valueOnly (sel_value (formatNumber (valueOnly '' 41111''))))) \<noteq>
     sel_value (formatNumber (valueOnly '' 41111'')) \<and>
   sel_value (formatNumber (valueOnly '' 41111'')) = ''41111'' \<and>
   sel_value (formatNumber (valueOnly ''41111'')) = ''4111 1'' \<and>
   \<not> hasOtherCharacter ''4 1'' \<and>
   formatNumber (valueOnly (sel_value (formatNumber (valueOnly ''4 1'')))) \<noteq>
     formatNumber (valueOnly ''4 1'') \<and>
   formatNumber (valueOnly ''4 1'') =
     \<lparr>sel_value = ''41'', selectionStart = 3, selectionEnd = 3\<rparr> \<and>
   formatNumber (valueOnly ''41'') =
     \<lparr>sel_value = ''41'', selectionStart = 2, selectionEnd = 2\<rparr>"
proof -
  have h: "\<not> hasOtherCharacter '' 41111''" "\<not> hasOtherCharacter ''4 1''"
    by (simp_all add: hasOtherCharacter_def)
  have a: "sel_value (formatNumber (valueOnly '' 41111'')) = ''41111''" by code_simp
  have b: "sel_value (formatNumber (valueOnly ''41111'')) = ''4111 1''" by code_simp
  have c: "formatNumber (valueOnly ''4 1'') =
      \<lparr>sel_value = ''41'', selectionStart = 3, selectionEnd = 3\<rparr>" by code_simp
  have d: "formatNumber (valueOnly ''41'') =
      \<lparr>sel_value = ''41'', selectionStart = 2, selectionEnd = 2\<rparr>" by code_simp
  from h a b c d show ?thesis by simp
qed

text \<open>
  For every input string the formatted value consists of digits and spaces only, and no two
  spaces are neighbours. If the input is empty or begins with a digit, the value is no
  longer than the pattern selected for the value itself, and its spaces are exactly at that
  pattern's separator positions.
\<close>

theorem formatNumber_output_shape:
  fixes v ss se
  defines "out \<equiv> sel_value (formatNumber \<lparr>arg_value = Str v, arg_selectionStart = ss, arg_selectionEnd = se\<rparr>)"
  shows "list_all (\<lambda>c. isNumber c \<or> c = CHR '' '') out \<and>
     (\<forall>k. Suc k < length out \<longrightarrow> \<not> (out ! k = CHR '' '' \<and> out ! Suc k = CHR '' '')) \<and>
     (v = [] \<or> isNumber (hd v) \<longrightarrow>
        length out \<le> length (getPatternFromNumber (Str out)) \<and>
        (\<forall>k < length out. (out ! k = CHR '' '') = (getPatternFromNumber (Str out) ! k = CHR '' '')))"
proof -
  let ?a = "\<lparr>arg_value = Str v, arg_selectionStart = ss, arg_selectionEnd = se\<rparr>"
  have c: "conforms (getPatternFromNumber (Str v)) out"
    using formatNumber_conforms [of ?a] by (simp add: out_def toStr_def)
  have 1: "list_all (\<lambda>c. isNumber c \<or> c = CHR '' '') out"
    using conforms_chars [OF c] by (simp add: list_all_iff)
  have 2: "\<forall>k. Suc k < length out \<longrightarrow> \<not> (out ! k = CHR '' '' \<and> out ! Suc k = CHR '' '')"
    using conforms_single_spaces [OF c pattern_isolated] by blast
  have 3: "length out \<le> length (getPatternFromNumber (Str out)) \<and>
        (\<forall>k < length out. (out ! k = CHR '' '') = (getPatternFromNumber (Str out) ! k = CHR '' ''))"
    if "v = [] \<or> isNumber (hd v)"
  proof -
    from formatNumber_same_pattern [OF that, of ss se]
    have "getPatternFromNumber (Str out) = getPatternFromNumber (Str v)" by (simp add: out_def)
    with c have c': "conforms (getPatternFromNumber (Str out)) out" by simp
    then have "length out \<le> length (getPatternFromNumber (Str out))" by (simp add: conforms_def)
    with conforms_positions [OF c'] show ?thesis by blast
  qed
  from 1 2 3 show ?thesis by blast
qed

theorem formatNumber_output_shape_example:
  "isNumber (hd ''371449635398431'') \<and>
   sel_value (formatNumber \<lparr>arg_value = Str ''371449635398431'', arg_selectionStart = None, arg_selectionEnd = None\<rparr>)
     = ''3714 496353 98431'' \<and>
   list_all (\<lambda>c. isNumber c \<or> c = CHR '' '')
     (sel_value (formatNumber \<lparr>arg_value = Str ''371449635398431'', arg_selectionStart = None, arg_selectionEnd = None\<rparr>)) \<and>
   length (sel_value (formatNumber \<lparr>arg_value = Str ''371449635398431'', arg_selectionStart = None, arg_selectionEnd = None\<rparr>))
     \<le> length (getPatternFromNumber (Str (sel_value (formatNumber
          \<lparr>arg_value = Str ''371449635398431'', arg_selectionStart = None, arg_selectionEnd = None\<rparr>))))"
proof -
  have v: "sel_value (formatNumber \<lparr>arg_value = Str ''371449635398431'', arg_selectionStart = None, arg_selectionEnd = None\<rparr>) = ''3714 496353 98431''"
    by code_simp
  have d: "isNumber (hd ''371449635398431'')"
    by (simp add: isNumber_def)
  from formatNumber_output_shape [of "''371449635398431''" None None] d v
  show ?thesis by blast
qed

text \<open>
  Claim C4 says that the spaces of the formatted value are at the separator positions of
  the pattern selected for the first digit of that value. For an input that begins with a
  space the formatter does otherwise: the formatted value of a space followed by \<open>41111\<close>
  is \<open>41111\<close>, whose own pattern has a separator at index 4, where the value has a digit.
\<close>

theorem formatNumber_output_pattern_mismatch:
  "sel_value (formatNumber (valueOnly '' 41111'')) = ''41111'' \<and>
   getPatternFromNumber (Str (sel_value (formatNumber (valueOnly '' 41111'')))) ! 4 = CHR '' '' \<and>
   sel_value (formatNumber (valueOnly '' 41111'')) ! 4 \<noteq> CHR '' ''"
proof -
  have v: "sel_value (formatNumber (valueOnly '' 41111'')) = ''41111''" by code_simp
  have p: "getPatternFromNumber (Str ''41111'') ! 4 = CHR '' ''" by code_simp
  from v p show ?thesis by simp
qed

section \<open>The selection range of the result\<close>

lemma dropping_iff:
  "dropping inp pat w = (pat ! pos_j w = CHR ''#'' \<and> \<not> isNumber (inp ! pos_i w))"
  by (auto simp: dropping_def loopBody_pos inserting_def emitted_def)

lemma keepsEvery_step:
  assumes "keepsEvery inp pat w" "loopGuard inp pat w"
  shows "\<not> dropping inp pat w" and "keepsEvery inp pat (loopBody inp pat w)"
  using assms by (subst (asm) keepsEvery.simps, simp)+

lemma keepsEvery_stop:
  assumes "keepsEvery inp pat w" "\<not> loopGuard inp pat w"
  shows "length inp \<le> pos_i w"
  using assms by (subst (asm) keepsEvery.simps) simp

lemma formatLoop_kept_cursor:
  assumes "keepsEvery inp pat w" and "dense w" and "pos_i w \<le> length inp"
    and "0 \<le> currentStart w" and "currentStart w \<le> currentEnd w"
    and "currentEnd w + int (pos_i w) \<le> int (length inp) + int (pos_j w)"
  shows "0 \<le> currentStart (formatLoop inp pat w) \<and>
     currentStart (formatLoop inp pat w) \<le> currentEnd (formatLoop inp pat w) \<and>
     currentEnd (formatLoop inp pat w) \<le> int (length (join (outputNumber (formatLoop inp pat w))))"
proof -
  let ?P = "\<lambda>u. keepsEvery inp pat u \<and> dense u \<and> pos_i u \<le> length inp \<and>
     0 \<le> currentStart u \<and> currentStart u \<le> currentEnd u \<and>
     currentEnd u + int (pos_i u) \<le> int (length inp) + int (pos_j u)"
  have step: "?P (loopBody inp pat u)" if "?P u" "loopGuard inp pat u" for u
  proof -
    from that have k: "keepsEvery inp pat u" and d: "dense u" and i: "pos_i u < length inp"
      and s0: "0 \<le> currentStart u" and se: "currentStart u \<le> currentEnd u"
      and b: "currentEnd u + int (pos_i u) \<le> int (length inp) + int (pos_j u)"
      unfolding loopGuard_def by blast+
    from keepsEvery_step [OF k that(2)]
    have nd: "\<not> dropping inp pat u" and k': "keepsEvery inp pat (loopBody inp pat u)" by blast+
    show ?thesis
    proof (cases "inserting inp pat u")
      case True
      then have e: "emitted inp pat u = '' ''" by (simp add: inserting_def emitted_def)
      from k' d i s0 se b e True show ?thesis
        by (simp add: loopBody_dense loopBody_pos loopBody_cursor)
    next
      case False
      with nd have e: "length (emitted inp pat u) = 1"
        by (auto simp: dropping_iff inserting_def emitted_def)
      from k' d i s0 se b e False show ?thesis
        by (simp add: loopBody_dense loopBody_pos loopBody_cursor)
    qed
  qed
  from formatLoop_rule [where P = ?P, OF _ step] assms
  have fin: "?P (formatLoop inp pat w)" and ex: "\<not> loopGuard inp pat (formatLoop inp pat w)"
    by blast+
  let ?u = "formatLoop inp pat w"
  from fin have k: "keepsEvery inp pat ?u" and d: "dense ?u"
    and s0: "0 \<le> currentStart ?u" and se: "currentStart ?u \<le> currentEnd ?u"
    and b: "currentEnd ?u + int (pos_i ?u) \<le> int (length inp) + int (pos_j ?u)"
    by blast+
  from keepsEvery_stop [OF k ex] b have "currentEnd ?u \<le> int (pos_j ?u)" by simp
  with dense_length [OF d] s0 se show ?thesis by simp
qed

text \<open>
  Claim C5, as amended. For a request from whose value the walk drops no character, and
  whose offsets satisfy \<open>0 \<le> selectionStart \<le> selectionEnd \<le> length value\<close>, the result
  satisfies \<open>0 \<le> selectionStart \<le> selectionEnd \<le> length value\<close> for its own value.
\<close>

theorem formatNumber_cursor_range_kept:
  assumes "keepsEvery v (getPatternFromNumber (Str v))
             (initialWalk \<lparr>arg_value = Str v, arg_selectionStart = Some s, arg_selectionEnd = Some e\<rparr>)"
    and "0 \<le> s" "s \<le> e" "e \<le> int (length v)"
  shows "0 \<le> selectionStart (formatNumber \<lparr>arg_value = Str v, arg_selectionStart = Some s, arg_selectionEnd = Some e\<rparr>) \<and>
     selectionStart (formatNumber \<lparr>arg_value = Str v, arg_selectionStart = Some s, arg_selectionEnd = Some e\<rparr>)
       \<le> selectionEnd (formatNumber \<lparr>arg_value = Str v, arg_selectionStart = Some s, arg_selectionEnd = Some e\<rparr>) \<and>
     selectionEnd (formatNumber \<lparr>arg_value = Str v, arg_selectionStart = Some s, arg_selectionEnd = Some e\<rparr>)
       \<le> int (length (sel_value (formatNumber \<lparr>arg_value = Str v, arg_selectionStart = Some s, arg_selectionEnd = Some e\<rparr>)))"
  using formatLoop_kept_cursor [OF assms(1)] assms(2-4)
  by (simp add: formatNumber_simps initialWalk_dense initialWalk_simps toStr_def
      selectionStartOf_def selectionEndOf_def)

theorem formatNumber_cursor_range_kept_witness:
  "keepsEvery ''4111 11112'' (getPatternFromNumber (Str ''4111 11112''))
     (initialWalk \<lparr>arg_value = Str ''4111 11112'', arg_selectionStart = Some 5, arg_selectionEnd = Some 10\<rparr>) \<and>
   formatNumber \<lparr>arg_value = Str ''4111 11112'', arg_selectionStart = Some 5, arg_selectionEnd = Some 10\<rparr>
     = \<lparr>sel_value = ''4111 1111 2'', selectionStart = 5, selectionEnd = 11\<rparr> \<and>
   (11::int) \<le> int (length ''4111 1111 2'')"
proof -
  have 1: "keepsEvery ''4111 11112'' (getPatternFromNumber (Str ''4111 11112''))
     (initialWalk \<lparr>arg_value = Str ''4111 11112'', arg_selectionStart = Some 5, arg_selectionEnd = Some 10\<rparr>)"
    by code_simp
  have 2: "(0::int) \<le> 5" "(5::int) \<le> 10" "(10::int) \<le> int (length ''4111 11112'')"
    by simp_all
  have v: "formatNumber \<lparr>arg_value = Str ''4111 11112'', arg_selectionStart = Some 5, arg_selectionEnd = Some 10\<rparr>
     = \<lparr>sel_value = ''4111 1111 2'', selectionStart = 5, selectionEnd = 11\<rparr>" by code_simp
  from formatNumber_cursor_range_kept [OF 1 2] 1 v show ?thesis by simp
qed

text \<open>
  Claim C5 as stated fails when the walk drops an input character. A non-digit on a digit
  slot: \<open>4 1\<close> with both offsets at 3 formats to \<open>41\<close> with both offsets still at 3. Input
  left behind the end of the pattern: twenty digits that begin with \<open>5\<close>, with both offsets
  at 20, format to a value of nineteen characters with both offsets at 23.
\<close>

theorem formatNumber_cursor_beyond_output:
  "(0::int) \<le> 3 \<and> (3::int) \<le> int (length ''4 1'') \<and>
   formatNumber \<lparr>arg_value = Str ''4 1'', arg_selectionStart = Some 3, arg_selectionEnd = Some 3\<rparr>
     = \<lparr>sel_value = ''41'', selectionStart = 3, selectionEnd = 3\<rparr> \<and>
   \<not> selectionEnd (formatNumber \<lparr>arg_value = Str ''4 1'', arg_selectionStart = Some 3, arg_selectionEnd = Some 3\<rparr>)
       \<le> int (length (sel_value (formatNumber \<lparr>arg_value = Str ''4 1'', arg_selectionStart = Some 3, arg_selectionEnd = Some 3\<rparr>))) \<and>
   (0::int) \<le> 20 \<and> (20::int) \<le> int (length ''51051051051051001234'') \<and>
   formatNumber \<lparr>arg_value = Str ''51051051051051001234'', arg_selectionStart = Some 20, arg_selectionEnd = Some 20\<rparr>
     = \<lparr>sel_value = ''5105 1051 0510 5100'', selectionStart = 23, selectionEnd = 23\<rparr> \<and>
   \<not> selectionEnd (formatNumber \<lparr>arg_value = Str ''51051051051051001234'', arg_selectionStart = Some 20, arg_selectionEnd = Some 20\<rparr>)
       \<le> int (length (sel_value (formatNumber \<lparr>arg_value = Str ''51051051051051001234'', arg_selectionStart = Some 20, arg_selectionEnd = Some 20\<rparr>)))"
proof -
  have a: "formatNumber \<lparr>arg_value = Str ''4 1'', arg_selectionStart = Some 3, arg_selectionEnd = Some 3\<rparr>
     = \<lparr>sel_value = ''41'', selectionStart = 3, selectionEnd = 3\<rparr>" by code_simp
  have b: "formatNumber \<lparr>arg_value = Str ''51051051051051001234'', arg_selectionStart = Some 20, arg_selectionEnd = Some 20\<rparr>
     = \<lparr>sel_value = ''5105 1051 0510 5100'', selectionStart = 23, selectionEnd = 23\<rparr>" by code_simp
  from a b show ?thesis by simp
qed

text \<open>
  The walk keeps every character of a value that already follows its pattern, and of a
  value of digits only that has no more digits than the pattern has slots.
\<close>

lemma slots_take_Suc:
  "j < length pat \<Longrightarrow>
     slots (take (Suc j) pat) = slots (take j pat) + (if pat ! j = CHR ''#'' then 1 else 0)"
  by (simp add: slots_def take_Suc_conv_app_nth)

lemma keepsEvery_formatted:
  assumes "conforms pat cs" "pos_i w = pos_j w"
  shows "keepsEvery cs pat w"
  using assms
proof (induction cs pat w rule: keepsEvery.induct)
  case (1 cs pat w)
  show ?case
  proof (cases "loopGuard cs pat w")
    case True
    then have i: "pos_i w < length cs" by (simp add: loopGuard_def)
    with "1.prems"
    have k: "if pat ! pos_j w = CHR ''#'' then isNumber (cs ! pos_i w) else cs ! pos_i w = CHR '' ''"
      by (simp add: conforms_def)
    then have nd: "\<not> dropping cs pat w" and e: "emitted cs pat w = [cs ! pos_i w]"
      and ni: "\<not> inserting cs pat w"
      by (auto simp: dropping_iff emitted_def inserting_def isNumber_space split: if_splits)
    from e ni "1.prems"(2) have "pos_i (loopBody cs pat w) = pos_j (loopBody cs pat w)"
      by (simp add: loopBody_pos)
    with "1.IH" [OF True "1.prems"(1)] have "keepsEvery cs pat (loopBody cs pat w)" .
    with True nd show ?thesis by (subst keepsEvery.simps) simp
  next
    case False
    from "1.prems"(1) have "length cs \<le> length pat" by (simp add: conforms_def)
    with False "1.prems"(2) have "length cs \<le> pos_i w" by (auto simp: loopGuard_def)
    with False show ?thesis by (subst keepsEvery.simps) simp
  qed
qed

lemma keepsEvery_digits:
  assumes "list_all isNumber inp" "length inp \<le> slots pat"
    and "pos_j w \<le> length pat" "pos_i w = slots (take (pos_j w) pat)"
  shows "keepsEvery inp pat w"
  using assms
proof (induction inp pat w rule: keepsEvery.induct)
  case (1 inp pat w)
  show ?case
  proof (cases "loopGuard inp pat w")
    case True
    then have i: "pos_i w < length inp" and j: "pos_j w < length pat"
      by (simp_all add: loopGuard_def)
    from "1.prems"(1) i have n: "isNumber (inp ! pos_i w)" by (simp add: list_all_length)
    then have nd: "\<not> dropping inp pat w" by (simp add: dropping_iff)
    have "pos_j (loopBody inp pat w) \<le> length pat \<and>
        pos_i (loopBody inp pat w) = slots (take (pos_j (loopBody inp pat w)) pat)"
      using n j "1.prems"(4)
      by (simp add: loopBody_pos inserting_def emitted_def slots_take_Suc)
    with "1.IH" [OF True "1.prems"(1,2)] have "keepsEvery inp pat (loopBody inp pat w)"
      by blast
    with True nd show ?thesis by (subst keepsEvery.simps) simp
  next
    case False
    have "length inp \<le> pos_i w"
    proof (cases "pos_i w < length inp")
      case True
      with False "1.prems"(3) have "pos_j w = length pat" by (simp add: loopGuard_def)
      with "1.prems"(2,4) show ?thesis by simp
    next
      case False
      then show ?thesis by simp
    qed
    with False show ?thesis by (subst keepsEvery.simps) simp
  qed
qed

lemma formatted_keepsEvery:
  "conforms (getPatternFromNumber (Str v)) v \<Longrightarrow>
     keepsEvery v (getPatternFromNumber (Str v)) (initialWalk a)"
  by (rule keepsEvery_formatted) (simp_all add: initialWalk_simps)

lemma digits_keepsEvery:
  "list_all isNumber v \<Longrightarrow> length v \<le> slots (getPatternFromNumber (Str v)) \<Longrightarrow>
     keepsEvery v (getPatternFromNumber (Str v)) (initialWalk a)"
  by (rule keepsEvery_digits) (simp_all add: initialWalk_simps slots_def)

text \<open>
  Conversely, for every value from which the walk drops a character, the request with
  both offsets at the end of the value returns a selection end beyond its value.
\<close>

lemma formatLoop_lost_cursor:
  assumes "dense w" "pos_i w \<le> length inp" "int (length inp) \<le> currentEnd w"
    and "int (length inp) + int (pos_j w) < currentEnd w + int (pos_i w)"
  shows "int (length (join (outputNumber (formatLoop inp pat w)))) < currentEnd (formatLoop inp pat w)"
proof -
  let ?P = "\<lambda>u. dense u \<and> pos_i u \<le> length inp \<and> int (length inp) \<le> currentEnd u \<and>
     int (length inp) + int (pos_j u) < currentEnd u + int (pos_i u)"
  have step: "?P (loopBody inp pat u)" if "?P u" "loopGuard inp pat u" for u
  proof -
    from that have d: "dense u" and i: "pos_i u < length inp"
      and n: "int (length inp) \<le> currentEnd u"
      and b: "int (length inp) + int (pos_j u) < currentEnd u + int (pos_i u)"
      unfolding loopGuard_def by blast+
    have "length (emitted inp pat u) \<le> 1" by (simp add: emitted_def)
    moreover have "inserting inp pat u \<Longrightarrow> length (emitted inp pat u) = 1"
      by (simp add: inserting_def emitted_def)
    ultimately show ?thesis using d i n b
      by (auto simp: loopBody_dense loopBody_pos loopBody_cursor)
  qed
  from formatLoop_rule [where P = ?P, OF _ step] assms
  have fin: "?P (formatLoop inp pat w)" by blast
  let ?u = "formatLoop inp pat w"
  from fin have d: "dense ?u" and i: "pos_i ?u \<le> length inp"
    and b: "int (length inp) + int (pos_j ?u) < currentEnd ?u + int (pos_i ?u)"
    by blast+
  from i b have "int (pos_j ?u) < currentEnd ?u" by simp
  with dense_length [OF d] show ?thesis by simp
qed

lemma formatLoop_dropped_cursor:
  assumes "\<not> keepsEvery inp pat w"
    and "dense w" "pos_i w \<le> length inp" "int (length inp) \<le> currentEnd w"
    and "int (length inp) + int (pos_j w) \<le> currentEnd w + int (pos_i w)"
  shows "int (length (join (outputNumber (formatLoop inp pat w)))) < currentEnd (formatLoop inp pat w)"
  using assms
proof (induction inp pat w rule: formatLoop.induct)
  case (1 inp pat w)
  show ?case
  proof (cases "loopGuard inp pat w")
    case True
    then have i: "pos_i w < length inp" by (simp add: loopGuard_def)
    have u: "formatLoop inp pat w = formatLoop inp pat (loopBody inp pat w)"
      using True by (subst formatLoop.simps) simp
    have le: "length (emitted inp pat w) \<le> 1" by (simp add: emitted_def)
    have ins: "inserting inp pat w \<Longrightarrow> length (emitted inp pat w) = 1"
      by (simp add: inserting_def emitted_def)
    show ?thesis
    proof (cases "dropping inp pat w")
      case True
      then have "\<not> inserting inp pat w" "emitted inp pat w = []"
        by (simp_all add: dropping_iff inserting_def emitted_def)
      with "1.prems" i
      have "int (length (join (outputNumber (formatLoop inp pat (loopBody inp pat w)))))
          < currentEnd (formatLoop inp pat (loopBody inp pat w))"
        by (intro formatLoop_lost_cursor) (simp_all add: loopBody_dense loopBody_pos loopBody_cursor)
      with u show ?thesis by simp
    next
      case False
      with "1.prems"(1) True have nk: "\<not> keepsEvery inp pat (loopBody inp pat w)"
        by (subst (asm) keepsEvery.simps) simp
      have "int (length (join (outputNumber (formatLoop inp pat (loopBody inp pat w)))))
          < currentEnd (formatLoop inp pat (loopBody inp pat w))"
      proof (rule "1.IH" [OF True nk])
        show "dense (loopBody inp pat w)" using "1.prems"(2) by (simp add: loopBody_dense)
        show "pos_i (loopBody inp pat w) \<le> length inp" using i by (simp add: loopBody_pos)
        show "int (length inp) \<le> currentEnd (loopBody inp pat w)"
          using "1.prems"(4) by (simp add: loopBody_cursor)
        show "int (length inp) + int (pos_j (loopBody inp pat w))
            \<le> currentEnd (loopBody inp pat w) + int (pos_i (loopBody inp pat w))"
          using "1.prems"(4,5) i le ins by (auto simp: loopBody_pos loopBody_cursor)
      qed
      with u show ?thesis by simp
    qed
  next
    case False
    then have u: "formatLoop inp pat w = w" by (subst formatLoop.simps) simp
    from "1.prems"(1) False have "pos_i w < length inp"
      by (subst (asm) keepsEvery.simps) simp
    with "1.prems"(5) have "int (pos_j w) < currentEnd w" by simp
    with dense_length [OF "1.prems"(2)] u show ?thesis by simp
  qed
qed

lemma formatNumber_dropped_end:
  assumes "\<not> keepsEvery v (getPatternFromNumber (Str v))
             (initialWalk \<lparr>arg_value = Str v, arg_selectionStart = Some (int (length v)),
                arg_selectionEnd = Some (int (length v))\<rparr>)"
  shows "int (length (sel_value (formatNumber \<lparr>arg_value = Str v,
              arg_selectionStart = Some (int (length v)), arg_selectionEnd = Some (int (length v))\<rparr>)))
     < selectionEnd (formatNumber \<lparr>arg_value = Str v,
              arg_selectionStart = Some (int (length v)), arg_selectionEnd = Some (int (length v))\<rparr>)"
  using formatLoop_dropped_cursor [OF assms]
  by (simp add: formatNumber_simps initialWalk_dense initialWalk_simps toStr_def
      selectionStartOf_def selectionEndOf_def)

section \<open>The change handler\<close>

text \<open>
  Claim C9. For a change event with a snapshot: if the value after the edit has only digits
  and spaces, the snapshot's value is as long as the pattern selected from the value after
  the edit, the value after the edit is at least that long, and the snapshot is not a
  replacement, then the handler sets the input state to the snapshot's value and selection
  offsets, prevents the default action, and does not call the change observer.
\<close>

theorem manageChange_rejects_full_field:
  assumes "\<not> hasOtherCharacter (sel_value input)"
    and "length (rev_value snap) = length (getPatternFromNumber (Str (sel_value input)))"
    and "length (sel_value input) \<ge> length (getPatternFromNumber (Str (sel_value input)))"
    and "\<not> isReplacing snap"
  shows "manageChange (Some snap) inputState input =
     Inr \<lparr>nextInputState =
            \<lparr>sel_value = rev_value snap, selectionStart = rev_selectionStart snap,
             selectionEnd = rev_selectionEnd snap\<rparr>,
          defaultPrevented = True, notified = None\<rparr>"
  using assms by (simp add: manageChange_def revertState_def Let_def)

theorem manageChange_rejects_full_field_witness:
  "manageChange
     (Some \<lparr>rev_selectionStart = 23, rev_selectionEnd = 23, rev_value = ''4111 1111 1111 1111 111'',
            isReplacing = False, isAddingSpace = False\<rparr>)
     \<lparr>sel_value = ''4111 1111 1111 1111 111'', selectionStart = 23, selectionEnd = 23\<rparr>
     \<lparr>sel_value = ''4111 1111 1111 1111 1112'', selectionStart = 24, selectionEnd = 24\<rparr>
   = Inr \<lparr>nextInputState =
            \<lparr>sel_value = ''4111 1111 1111 1111 111'', selectionStart = 23, selectionEnd = 23\<rparr>,
          defaultPrevented = True, notified = None\<rparr>"
proof -
  let ?snap = "\<lparr>rev_selectionStart = 23, rev_selectionEnd = 23, rev_value = ''4111 1111 1111 1111 111'',
            isReplacing = False, isAddingSpace = False\<rparr>"
  let ?input = "\<lparr>sel_value = ''4111 1111 1111 1111 1112'', selectionStart = 24, selectionEnd = 24\<rparr>"
  have 1: "\<not> hasOtherCharacter (sel_value ?input)" by (simp add: hasOtherCharacter_def)
  have p: "getPatternFromNumber (Str (sel_value ?input)) = ''#### #### #### #### ###''"
    by (simp add: getPatternFromNumber_def toStr_def patterns_def)
  have 2: "length (rev_value ?snap) = length (getPatternFromNumber (Str (sel_value ?input)))"
    unfolding p by simp
  have 3: "length (sel_value ?input) \<ge> length (getPatternFromNumber (Str (sel_value ?input)))"
    unfolding p by simp
  have 4: "\<not> isReplacing ?snap" by simp
  from manageChange_rejects_full_field [OF 1 2 3 4] show ?thesis by simp
qed

end
